theory Spec2Isabelle
  imports Complex_Main
begin

section \<open>Editable text support of a diagram item (gaphor/diagram/textelement.py)\<close>

text \<open>
  Python numbers (text extents, positions, paddings) are modelled as exact reals; sums
  are written in the order the code evaluates them.
  Text elements are objects shared between the list \<open>_texts\<close> and the group lists of
  \<open>_text_groups\<close>; the model keeps them in one store, the list \<open>texts\<close>, and a group
  holds the positions of its elements in that store.
\<close>

subsection \<open>Data model\<close>

text \<open>
  The exceptions of Python that the code can raise. \<open>Unmodelled\<close> is no exception: it
  is the answer of the formatting model below to a pattern outside its fragment.
\<close>

datatype py_error = AttributeError | KeyError | TypeError | ValueError | Unmodelled

text \<open>
  Modelled from the spec: the alignment constants of gaphor.diagram.style (the module is
  not under src/); the spec names horizontal and vertical alignment values.
\<close>

datatype halign = ALIGN_LEFT | ALIGN_CENTER | ALIGN_RIGHT

datatype valign = ALIGN_TOP | ALIGN_MIDDLE | ALIGN_BOTTOM

type_synonym padding = "real \<times> real \<times> real \<times> real"

text \<open>
  Modelled from the spec: the Style class of gaphor.diagram.style (not under src/), a
  record of alignment, padding and outside-flag.
\<close>

record Style =
  text_align :: "halign \<times> valign"
  text_padding :: padding
  text_outside :: bool

text \<open>
  The style dictionary a caller passes: each key may be absent. The lookup
  \<open>style.get('text-align-group')\<close> gives None for an absent key as for a key bound to
  None, so one optional field stands for both.
\<close>

record style_opts =
  opt_text_align :: "(halign \<times> valign) option"
  opt_text_padding :: "padding option"
  opt_text_outside :: "bool option"
  opt_text_align_group :: "string option"

text \<open>The rectangle of gaphas.geometry, as the spec's bounds: x0, y0, width, height.\<close>

record Rectangle =
  x0 :: real
  y0 :: real
  width :: real
  height :: real

text \<open>
  A text element. The type \<open>'h\<close> is the state of the host that a \<open>when\<close> function
  reads when it is called; \<open>display\<close> is that function, or the default method.
\<close>

record 'h TextElement =
  bounds :: Rectangle
  style :: Style
  attr :: string
  text_val :: string
  display :: "'h \<Rightarrow> bool"
  pattern :: string

record 'h EditableTextSupport =
  texts :: "'h TextElement list"
  text_groups :: "(string option \<times> nat list) list"

subsection \<open>TextElement\<close>

definition default_style :: Style where
  "default_style =
     \<lparr>text_align = (ALIGN_CENTER, ALIGN_TOP), text_padding = (2, 2, 2, 2), text_outside = False\<rparr>"

text \<open>
  Modelled from the spec: Style.update (gaphor.diagram.style, not under src/) overrides
  the style field by field with the supplied options.
\<close>

definition Style_update :: "Style \<Rightarrow> style_opts \<Rightarrow> Style" where
  "Style_update st so =
     \<lparr>text_align = (case opt_text_align so of Some a \<Rightarrow> a | None \<Rightarrow> text_align st),
      text_padding = (case opt_text_padding so of Some p \<Rightarrow> p | None \<Rightarrow> text_padding st),
      text_outside = (case opt_text_outside so of Some b \<Rightarrow> b | None \<Rightarrow> text_outside st)\<rparr>"

text \<open>Truth value of the style dictionary in \<open>if style:\<close>: it has an entry.\<close>

definition style_nonempty :: "style_opts \<Rightarrow> bool" where
  "style_nonempty so =
     (opt_text_align so \<noteq> None \<or> opt_text_padding so \<noteq> None \<or> opt_text_outside so \<noteq> None
      \<or> opt_text_align_group so \<noteq> None)"

definition TextElement_init ::
  "string \<Rightarrow> style_opts option \<Rightarrow> string option \<Rightarrow> ('h \<Rightarrow> bool) option \<Rightarrow> 'h TextElement" where
  "TextElement_init attr_name style_arg pattern_arg when_arg =
     \<lparr>bounds = \<lparr>x0 = 0, y0 = 0, width = 10, height = 0\<rparr>,
      style = (case style_arg of
                 None \<Rightarrow> default_style
               | Some so \<Rightarrow> if style_nonempty so then Style_update default_style so
                           else default_style),
      attr = attr_name,
      text_val = [],
      display = (case when_arg of Some w \<Rightarrow> w | None \<Rightarrow> (\<lambda>h. True)),
      pattern = (case pattern_arg of
                   None \<Rightarrow> ''%s''
                 | Some p \<Rightarrow> if p \<noteq> [] then p else ''%s'')\<rparr>"

text \<open>
  \<open>_set_text\<close>: \<open>self._text = self._pattern % value\<close>. The operator \<open>%\<close> of Python
  strings is the parameter \<open>fmt\<close>; when it raises, the assignment does not happen.
\<close>

definition set_text ::
  "(string \<Rightarrow> 'v \<Rightarrow> py_error + string) \<Rightarrow> 'h TextElement \<Rightarrow> 'v
     \<Rightarrow> (py_error + unit) \<times> 'h TextElement" where
  "set_text fmt e v =
     (case fmt (pattern e) v of
        Inl err \<Rightarrow> (Inl err, e)
      | Inr t \<Rightarrow> (Inr (), e\<lparr>text_val := t\<rparr>))"

subsection \<open>A fragment of Python's string formatting\<close>

text \<open>
  The values are integers, strings and tuples of them; the conversions are \<open>%s\<close>,
  \<open>%d\<close> and \<open>%%\<close>. A pattern with flags, widths, mapping keys or another conversion
  type is outside this fragment: the model answers \<open>Unmodelled\<close> there and says
  nothing about what Python does.
\<close>

datatype pyatom = PInt int | PStr string

datatype pyvalue = Atom pyatom | Tuple "pyatom list"

definition digit_char :: "nat \<Rightarrow> char" where
  "digit_char n = ''0123456789'' ! n"

function digits :: "nat \<Rightarrow> string" where
  "digits n = (if n < 10 then [digit_char n] else digits (n div 10) @ [digit_char (n mod 10)])"
  by pat_completeness auto
termination
  by (relation "measure (\<lambda>n. n)") auto

definition py_str :: "pyatom \<Rightarrow> string" where
  "py_str a =
     (case a of
        PStr s \<Rightarrow> s
      | PInt i \<Rightarrow> if i < 0 then CHR ''-'' # digits (nat (- i)) else digits (nat i))"

fun prepend :: "string \<Rightarrow> py_error + (string \<times> pyatom list) \<Rightarrow> py_error + (string \<times> pyatom list)" where
  "prepend s (Inl err) = Inl err"
| "prepend s (Inr (t, rest)) = Inr (s @ t, rest)"

fun format_loop :: "string \<Rightarrow> pyatom list \<Rightarrow> py_error + (string \<times> pyatom list)" where
  "format_loop [] args = Inr ([], args)"
| "format_loop [c] args = (if c = CHR ''%'' then Inl ValueError else Inr ([c], args))"
| "format_loop (c # d # cs) args =
     (if c \<noteq> CHR ''%'' then prepend [c] (format_loop (d # cs) args)
      else if d = CHR ''%'' then prepend ''%'' (format_loop cs args)
      else if d = CHR ''s'' then
        (case args of
           [] \<Rightarrow> Inl TypeError
         | a # rest \<Rightarrow> prepend (py_str a) (format_loop cs rest))
      else if d = CHR ''d'' then
        (case args of
           [] \<Rightarrow> Inl TypeError
         | PInt i # rest \<Rightarrow> prepend (py_str (PInt i)) (format_loop cs rest)
         | PStr s # rest \<Rightarrow> Inl TypeError)
      else Inl Unmodelled)"

definition py_format :: "string \<Rightarrow> pyvalue \<Rightarrow> py_error + string" where
  "py_format p v =
     (case format_loop p (case v of Atom a \<Rightarrow> [a] | Tuple as \<Rightarrow> as) of
        Inl err \<Rightarrow> Inl err
      | Inr (t, rest) \<Rightarrow> if rest = [] then Inr t else Inl TypeError)"

subsection \<open>EditableTextSupport: construction and add_text\<close>

definition EditableTextSupport_init :: "'h EditableTextSupport" where
  "EditableTextSupport_init = \<lparr>texts = [], text_groups = [(None, [])]\<rparr>"

text \<open>\<open>group.append(txt)\<close> on the list bound to the key \<open>gname\<close>.\<close>

definition group_append ::
  "string option \<Rightarrow> nat \<Rightarrow> (string option \<times> nat list) list \<Rightarrow> (string option \<times> nat list) list" where
  "group_append gname i gs = map (\<lambda>(n, g). if n = gname then (n, g @ [i]) else (n, g)) gs"

text \<open>
  \<open>add_text\<close> returns the position of the created element in the store. The element
  is appended to \<open>_texts\<close> before \<open>style.get\<close> is evaluated; with \<open>style = None\<close>
  that expression raises AttributeError, and the state keeps the appended element.
\<close>

definition add_text ::
  "'h EditableTextSupport \<Rightarrow> string \<Rightarrow> style_opts option \<Rightarrow> string option \<Rightarrow> ('h \<Rightarrow> bool) option
     \<Rightarrow> (py_error + nat) \<times> 'h EditableTextSupport" where
  "add_text s attr_name style_arg pattern_arg when_arg =
     (let txt = TextElement_init attr_name style_arg pattern_arg when_arg;
          i = length (texts s);
          s1 = s\<lparr>texts := texts s @ [txt]\<rparr>
      in case style_arg of
           None \<Rightarrow> (Inl AttributeError, s1)
         | Some so \<Rightarrow>
             (let gname = opt_text_align_group so;
                  gs = (if gname \<notin> set (map fst (text_groups s1))
                        then text_groups s1 @ [(gname, [])] else text_groups s1)
              in (Inr i, s1\<lparr>text_groups := group_append gname i gs\<rparr>)))"

subsection \<open>Layout: update\<close>

text \<open>
  The render context and the host give three capabilities, taken as parameters:
  \<open>te\<close> is \<open>text_extents(cr, text, multiline=True)\<close>, \<open>ta\<close> is the host's
  \<open>text_align\<close> method, and \<open>h\<close> is the host state the \<open>when\<close> functions read.
\<close>

type_synonym extents_fun = "string \<Rightarrow> real \<times> real"

type_synonym align_fun = "real \<times> real \<Rightarrow> halign \<times> valign \<Rightarrow> padding \<Rightarrow> bool \<Rightarrow> real \<times> real"

text \<open>The four assignments to \<open>txt.bounds\<close> of the element at position \<open>i\<close>.\<close>

definition set_bounds :: "nat \<Rightarrow> Rectangle \<Rightarrow> 'h TextElement list \<Rightarrow> 'h TextElement list" where
  "set_bounds i r ts = ts[i := (ts ! i)\<lparr>bounds := r\<rparr>]"

text \<open>\<open>texts = [txt for txt in group if txt.display()]\<close>\<close>

definition displayable :: "'h \<Rightarrow> 'h TextElement list \<Rightarrow> nat list \<Rightarrow> nat list" where
  "displayable h ts grp = filter (\<lambda>i. display (ts ! i) h) grp"

definition dimensions_of :: "extents_fun \<Rightarrow> 'h TextElement list \<Rightarrow> nat list \<Rightarrow> (real \<times> real) list" where
  "dimensions_of te ts vis = map (\<lambda>i. te (text_val (ts ! i))) vis"

text \<open>
  \<open>extents = (width, height)\<close> with the maximum width and the total height; the
  list of dimensions is not empty where this is used.
\<close>

definition group_extents :: "(real \<times> real) list \<Rightarrow> real \<times> real" where
  "group_extents dims = (Max (set (map fst dims)), sum_list (map snd dims))"

text \<open>\<open>width, height = map(max, extents, (15, 10))\<close>\<close>

definition clamp_extents :: "real \<times> real \<Rightarrow> real \<times> real" where
  "clamp_extents ext = (max (fst ext) 15, max (snd ext) 10)"

text \<open>\<open>self.text_align(extents, style.text_align, style.text_padding, style.text_outside)\<close>\<close>

definition anchor :: "align_fun \<Rightarrow> real \<times> real \<Rightarrow> Style \<Rightarrow> real \<times> real" where
  "anchor ta ext st = ta ext (text_align st) (text_padding st) (text_outside st)"

text \<open>
  The loop that stacks the displayable texts: \<open>zs\<close> pairs each text with its
  dimensions, \<open>dy\<close> is the running offset (\<open>dy += dh + 3\<close>).
\<close>

fun stack ::
  "real \<Rightarrow> real \<Rightarrow> real \<Rightarrow> real \<Rightarrow> (nat \<times> real \<times> real) list \<Rightarrow> 'h TextElement list
     \<Rightarrow> 'h TextElement list" where
  "stack x y w dy [] ts = ts"
| "stack x y w dy ((i, dw, dh) # zs) ts =
     stack x y w (dy + (dh + 3)) zs
       (set_bounds i \<lparr>x0 = x + (w - dw) / 2, y0 = y + dy, width = dw, height = dh\<rparr> ts)"

text \<open>
  \<open>_align_text_group\<close>. The extents handed to \<open>text_align\<close> are the ones bound
  before the clamp; the clamped width centres the texts.
\<close>

definition align_text_group ::
  "extents_fun \<Rightarrow> align_fun \<Rightarrow> 'h \<Rightarrow> nat list \<Rightarrow> 'h TextElement list \<Rightarrow> 'h TextElement list" where
  "align_text_group te ta h grp ts =
     (let vis = displayable h ts grp
      in if length vis = 0 then ts
         else
           (let dimensions = dimensions_of te ts vis;
                extents = group_extents dimensions;
                w = fst (clamp_extents extents);
                xy = anchor ta extents (style (ts ! hd vis))
            in stack (fst xy) (snd xy) w 0 (zip vis dimensions) ts))"

text \<open>The first loop of \<open>update\<close>, over the entries of \<open>_text_groups\<close>.\<close>

fun grouped_pass ::
  "extents_fun \<Rightarrow> align_fun \<Rightarrow> 'h \<Rightarrow> (string option \<times> nat list) list \<Rightarrow> 'h TextElement list
     \<Rightarrow> 'h TextElement list" where
  "grouped_pass te ta h [] ts = ts"
| "grouped_pass te ta h ((gname, grp) # gs) ts =
     grouped_pass te ta h gs
       (if gname \<noteq> None then align_text_group te ta h grp ts else ts)"

text \<open>The second loop of \<open>update\<close>, over the ungrouped texts.\<close>

fun ungrouped_pass ::
  "extents_fun \<Rightarrow> align_fun \<Rightarrow> 'h \<Rightarrow> nat list \<Rightarrow> 'h TextElement list \<Rightarrow> 'h TextElement list" where
  "ungrouped_pass te ta h [] ts = ts"
| "ungrouped_pass te ta h (i # is) ts =
     ungrouped_pass te ta h is
       (if \<not> display (ts ! i) h then ts
        else
          (let extents = clamp_extents (te (text_val (ts ! i)));
               xy = anchor ta extents (style (ts ! i))
           in set_bounds i
                \<lparr>x0 = fst xy, y0 = snd xy, width = fst extents, height = snd extents\<rparr> ts))"

text \<open>
  \<open>update\<close>. The lookup \<open>self._text_groups[None]\<close> raises KeyError when the key is
  missing; the grouped pass has run by then.
\<close>

definition update ::
  "extents_fun \<Rightarrow> align_fun \<Rightarrow> 'h \<Rightarrow> 'h EditableTextSupport
     \<Rightarrow> (py_error + unit) \<times> 'h EditableTextSupport" where
  "update te ta h s =
     (let ts1 = grouped_pass te ta h (text_groups s) (texts s)
      in case map_of (text_groups s) None of
           None \<Rightarrow> (Inl KeyError, s\<lparr>texts := ts1\<rparr>)
         | Some ungrouped \<Rightarrow> (Inr (), s\<lparr>texts := ungrouped_pass te ta h ungrouped ts1\<rparr>))"

subsection \<open>Hit test and drawing\<close>

text \<open>
  \<open>point\<close>: the list of distances starts with 10000.0; \<open>drp\<close> is
  \<open>distance_rectangle_point\<close> of gaphas.geometry. The state is returned as it came.
\<close>

definition point_distances ::
  "(Rectangle \<Rightarrow> real \<times> real \<Rightarrow> real) \<Rightarrow> 'h \<Rightarrow> 'h TextElement list \<Rightarrow> real \<Rightarrow> real \<Rightarrow> real list" where
  "point_distances drp h ts x y =
     10000 # map (\<lambda>txt. drp (bounds txt) (x, y)) (filter (\<lambda>txt. display txt h) ts)"

definition point ::
  "(Rectangle \<Rightarrow> real \<times> real \<Rightarrow> real) \<Rightarrow> 'h \<Rightarrow> 'h EditableTextSupport \<Rightarrow> real \<Rightarrow> real
     \<Rightarrow> real \<times> 'h EditableTextSupport" where
  "point drp h s x y = (Min (set (point_distances drp h (texts s) x y)), s)"

text \<open>
  The function of gaphas.geometry that \<open>point\<close> calls, as that library defines it:
  the distance along each axis from the point to the rectangle, added up.
\<close>

definition distance_rectangle_point :: "Rectangle \<Rightarrow> real \<times> real \<Rightarrow> real" where
  "distance_rectangle_point r p =
     (let px = fst p; py = snd p;
          dx = (if px < x0 r then x0 r - px
                else if px > x0 r + width r then px - (x0 r + width r) else 0);
          dy = (if py < y0 r then y0 r - py
                else if py > y0 r + height r then py - (y0 r + height r) else 0)
      in \<bar>dx\<bar> + \<bar>dy\<bar>)"

text \<open>
  \<open>draw\<close>: the calls made on the cairo context, in order. \<open>subject\<close> is the truth
  value of the host's subject; the flags are those of the render context.
\<close>

datatype draw_op =
    TextMultiline real real string
  | SetLineWidth real
  | DrawRectangle real real real real
  | Stroke

record draw_context =
  hovered :: bool
  focused :: bool
  draw_all :: bool

definition draw_text :: "bool \<Rightarrow> draw_context \<Rightarrow> 'h \<Rightarrow> 'h TextElement \<Rightarrow> draw_op list" where
  "draw_text subject ctx h txt =
     (if \<not> display txt h then []
      else
        (let b = bounds txt
         in (if subject then [TextMultiline (x0 b) (y0 b) (text_val txt)] else [])
            @ (if hovered ctx \<or> focused ctx \<or> draw_all ctx
               then [SetLineWidth (1 / 2), DrawRectangle (x0 b) (y0 b) (width b) (height b), Stroke]
               else [])))"

definition draw ::
  "bool \<Rightarrow> draw_context \<Rightarrow> 'h \<Rightarrow> 'h EditableTextSupport \<Rightarrow> draw_op list \<times> 'h EditableTextSupport" where
  "draw subject ctx h s = (concat (map (draw_text subject ctx h) (texts s)), s)"

subsection \<open>The operations in the spec's words\<close>

text \<open>
  The grouped pass in the spec's words: the clamped box is what the alignment function
  receives. It is compared with \<open>align_text_group\<close> below.
\<close>

definition align_text_group_spec ::
  "extents_fun \<Rightarrow> align_fun \<Rightarrow> 'h \<Rightarrow> nat list \<Rightarrow> 'h TextElement list \<Rightarrow> 'h TextElement list" where
  "align_text_group_spec te ta h grp ts =
     (let vis = displayable h ts grp
      in if length vis = 0 then ts
         else
           (let dimensions = dimensions_of te ts vis;
                box = clamp_extents (group_extents dimensions);
                xy = anchor ta box (style (ts ! hd vis))
            in stack (fst xy) (snd xy) (fst box) 0 (zip vis dimensions) ts))"

text \<open>
  The hit test in the spec's words: the least distance over the displayed elements, the
  sentinel when none is displayed. It is compared with \<open>point\<close> below.
\<close>

definition point_spec ::
  "(Rectangle \<Rightarrow> real \<times> real \<Rightarrow> real) \<Rightarrow> 'h \<Rightarrow> 'h EditableTextSupport \<Rightarrow> real \<Rightarrow> real \<Rightarrow> real" where
  "point_spec drp h s x y =
     (let ds = map (\<lambda>txt. drp (bounds txt) (x, y)) (filter (\<lambda>txt. display txt h) (texts s))
      in if ds = [] then 10000 else Min (set ds))"

subsection \<open>An example item\<close>

text \<open>
  A support with three texts in the group \<open>name\<close>, one text in the group
  \<open>guard\<close> and one ungrouped text; the last two are displayed when the host state is
  True. The texts are set through \<open>_set_text\<close>.
\<close>

definition example_style :: "string option \<Rightarrow> style_opts" where
  "example_style gname =
     \<lparr>opt_text_align = None, opt_text_padding = None, opt_text_outside = None,
      opt_text_align_group = gname\<rparr>"

definition set_texts :: "'h EditableTextSupport \<Rightarrow> string list \<Rightarrow> 'h EditableTextSupport" where
  "set_texts s vs =
     s\<lparr>texts := map2 (\<lambda>e v. snd (set_text py_format e (Atom (PStr v)))) (texts s) vs\<rparr>"

definition example_support :: "bool EditableTextSupport" where
  "example_support =
     (let s0 = EditableTextSupport_init;
          s1 = snd (add_text s0 ''name'' (Some (example_style (Some ''name''))) None None);
          s2 = snd (add_text s1 ''stereotype'' (Some (example_style (Some ''name''))) None None);
          s3 = snd (add_text s2 ''kind'' (Some (example_style (Some ''name''))) None None);
          s4 = snd (add_text s3 ''guard'' (Some (example_style (Some ''guard''))) None
                      (Some (\<lambda>h. h)));
          s5 = snd (add_text s4 ''note'' (Some (example_style None)) None (Some (\<lambda>h. h)))
      in set_texts s5 [''ClassName'', ''{abstract}'', ''x'', ''g'', ''n''])"

text \<open>
  A support with three texts in the group \<open>name\<close>, aligned to the bottom of the host
  item, and a render context in which every text measures (4, 2).
\<close>

definition bottom_style :: style_opts where
  "bottom_style =
     \<lparr>opt_text_align = Some (ALIGN_CENTER, ALIGN_BOTTOM), opt_text_padding = None,
      opt_text_outside = None, opt_text_align_group = Some ''name''\<rparr>"

definition example_bottom :: "unit EditableTextSupport" where
  "example_bottom =
     (let s0 = EditableTextSupport_init;
          s1 = snd (add_text s0 ''name'' (Some bottom_style) None None);
          s2 = snd (add_text s1 ''stereotype'' (Some bottom_style) None None);
          s3 = snd (add_text s2 ''kind'' (Some bottom_style) None None)
      in set_texts s3 [''a'', ''b'', ''c''])"

definition example_te_small :: extents_fun where
  "example_te_small t = (4, 2)"

text \<open>A support whose only text is displayed when the host state is True.\<close>

definition example_guarded :: "bool EditableTextSupport" where
  "example_guarded =
     snd (add_text EditableTextSupport_init ''guard'' (Some (example_style None)) None
            (Some (\<lambda>h. h)))"

text \<open>
  Extents as a render context could measure them, and the alignment of a host item of
  100 by 60 that places the text inside its box.
\<close>

definition example_te :: extents_fun where
  "example_te t =
     (if t = ''ClassName'' then (10, 8) else if t = ''{abstract}'' then (14, 6) else (4, 5))"

definition example_ta :: align_fun where
  "example_ta ext al pad out =
     (case pad of (pt, pr, pb, pl) \<Rightarrow>
        ((case fst al of
            ALIGN_LEFT \<Rightarrow> pl
          | ALIGN_CENTER \<Rightarrow> (100 - fst ext) / 2
          | ALIGN_RIGHT \<Rightarrow> 100 - fst ext - pr),
         (case snd al of
            ALIGN_TOP \<Rightarrow> pt
          | ALIGN_MIDDLE \<Rightarrow> (60 - snd ext) / 2
          | ALIGN_BOTTOM \<Rightarrow> 60 - snd ext - pb)))"

subsection \<open>Notions used in the proofs\<close>

text \<open>
  The invariant of the states that \<open>add_text\<close> builds: the keys of the dictionary are
  distinct, no element is in two groups or twice in one, and every group member is an
  element of the store.
\<close>

definition wf_groups :: "'h EditableTextSupport \<Rightarrow> bool" where
  "wf_groups s \<longleftrightarrow>
     distinct (map fst (text_groups s))
     \<and> distinct (concat (map snd (text_groups s)))
     \<and> (\<forall>i \<in> set (concat (map snd (text_groups s))). i < length (texts s))"

text \<open>Two stores that differ in the bounds of their elements only.\<close>

definition same_but_bounds :: "'h TextElement list \<Rightarrow> 'h TextElement list \<Rightarrow> bool" where
  "same_but_bounds ts ts' \<longleftrightarrow>
     length ts' = length ts \<and> (\<forall>j. ts' ! j = (ts ! j)\<lparr>bounds := bounds (ts' ! j)\<rparr>)"

text \<open>
  A pass over the store that writes bounds only, and writes the same bounds at the same
  places whatever bounds it finds: run on two stores that differ in bounds only, it
  leaves a place equal in both, or untouched in both.
\<close>

definition bounds_only :: "('h TextElement list \<Rightarrow> 'h TextElement list) \<Rightarrow> bool" where
  "bounds_only f \<longleftrightarrow>
     (\<forall>ts. same_but_bounds ts (f ts))
     \<and> (\<forall>ts ts' j. same_but_bounds ts ts' \<longrightarrow>
           f ts' ! j = f ts ! j \<or> (f ts ! j = ts ! j \<and> f ts' ! j = ts' ! j))"

section \<open>Properties\<close>

subsection \<open>TextElement\<close>

text \<open>
  C8: a new TextElement has the bounds x0 = 0, y0 = 0, width = 10, height = 0; its style
  is the default (centre, top), (2, 2, 2, 2), not outside, overridden field by field by
  the supplied style options; its pattern is \<open>%s\<close> when none is given (a given,
  non-empty one is kept); its \<open>display\<close> is always true when no \<open>when\<close> is given
  (a given one is kept).
\<close>

theorem TextElement_init_defaults:
  "bounds (TextElement_init a st p w) = \<lparr>x0 = 0, y0 = 0, width = 10, height = 0\<rparr>
   \<and> style (TextElement_init a None p w)
       = \<lparr>text_align = (ALIGN_CENTER, ALIGN_TOP), text_padding = (2, 2, 2, 2), text_outside = False\<rparr>
   \<and> style (TextElement_init a (Some so) p w)
       = \<lparr>text_align = (case opt_text_align so of Some x \<Rightarrow> x | None \<Rightarrow> (ALIGN_CENTER, ALIGN_TOP)),
          text_padding = (case opt_text_padding so of Some x \<Rightarrow> x | None \<Rightarrow> (2, 2, 2, 2)),
          text_outside = (case opt_text_outside so of Some x \<Rightarrow> x | None \<Rightarrow> False)\<rparr>
   \<and> pattern (TextElement_init a st None w) = ''%s''
   \<and> pattern (TextElement_init a st (Some (c # cs)) w) = c # cs
   \<and> (\<forall>h. display (TextElement_init a st p None) h)
   \<and> display (TextElement_init a st p (Some f)) = f"
  by (simp add: TextElement_init_def default_style_def Style_update_def style_nonempty_def
      split: option.splits)

text \<open>
  C3: \<open>_set_text\<close> formats the value through the element's pattern and stores the
  result as the text, leaving the bounds alone; when the formatting raises, the error
  reaches the caller and the element is as it was. With the pattern \<open>%s items\<close> the
  value 5 gives the text \<open>5 items\<close>.
\<close>

theorem set_text_formats_or_keeps:
  "(fmt (pattern e) v = Inr t \<longrightarrow>
      set_text fmt e v = (Inr (), e\<lparr>text_val := t\<rparr>)
      \<and> bounds (snd (set_text fmt e v)) = bounds e)
   \<and> (fmt (pattern e) v = Inl err \<longrightarrow> set_text fmt e v = (Inl err, e))
   \<and> (pattern e = ''%s items'' \<longrightarrow>
        set_text py_format e (Atom (PInt 5)) = (Inr (), e\<lparr>text_val := ''5 items''\<rparr>))"
  by (simp add: set_text_def py_format_def py_str_def digit_char_def)

theorem set_text_formats_or_keeps_witness:
  "py_format ''%s items'' (Atom (PInt 5)) = Inr ''5 items''
   \<and> py_format ''%s items'' (Tuple [PInt 5, PInt 6]) = Inl TypeError
   \<and> text_val (snd (set_text py_format
         (TextElement_init ''n'' None (Some ''%s items'') None :: unit TextElement)
         (Atom (PInt 5)))) = ''5 items''
   \<and> set_text py_format
         (TextElement_init ''n'' None (Some ''%s items'') None :: unit TextElement)
         (Tuple [PInt 5, PInt 6])
       = (Inl TypeError, TextElement_init ''n'' None (Some ''%s items'') None)"
proof -
  let ?e = "TextElement_init ''n'' None (Some ''%s items'') None :: unit TextElement"
  have p: "pattern ?e = ''%s items''" by (simp add: TextElement_init_def)
  have ok: "py_format ''%s items'' (Atom (PInt 5)) = Inr ''5 items''"
    by (simp add: py_format_def py_str_def digit_char_def)
  have bad: "py_format ''%s items'' (Tuple [PInt 5, PInt 6]) = Inl TypeError"
    by (simp add: py_format_def py_str_def digit_char_def)
  from set_text_formats_or_keeps [of py_format ?e "Atom (PInt 5)" "''5 items''"] ok p
  have a: "text_val (snd (set_text py_format ?e (Atom (PInt 5)))) = ''5 items''" by simp
  from set_text_formats_or_keeps [of py_format ?e "Tuple [PInt 5, PInt 6]" _ TypeError] bad p
  have b: "set_text py_format ?e (Tuple [PInt 5, PInt 6]) = (Inl TypeError, ?e)" by simp
  from ok bad a b show ?thesis by simp
qed

subsection \<open>add_text\<close>

text \<open>
  With a style dictionary \<open>add_text\<close> succeeds: the new element is appended to the
  store, the group's bucket is created when the key is absent, and the element's
  position is appended to it and returned.
\<close>

lemma add_text_with_style:
  "add_text s a (Some so) p w
     = (Inr (length (texts s)),
        \<lparr>texts = texts s @ [TextElement_init a (Some so) p w],
         text_groups =
           group_append (opt_text_align_group so) (length (texts s))
             (if opt_text_align_group so \<in> fst ` set (text_groups s) then text_groups s
              else text_groups s @ [(opt_text_align_group so, [])])\<rparr>)"
  by (simp add: add_text_def Let_def)

text \<open>
  C2: \<open>add_text\<close> called without a style (the parameter's default, None) on a new
  EditableTextSupport: the call raises AttributeError, and the element it created is in
  the store and in no group.
\<close>

theorem add_text_without_style_raises:
  "add_text (EditableTextSupport_init :: unit EditableTextSupport) ''name'' None None None
     = (Inl AttributeError,
        \<lparr>texts = [TextElement_init ''name'' None None None], text_groups = [(None, [])]\<rparr>)"
  by (simp add: add_text_def EditableTextSupport_init_def)

subsection \<open>The layout passes write bounds only\<close>

lemma set_bounds_nth:
  "set_bounds i r ts ! j = (if j = i \<and> i < length ts then (ts ! i)\<lparr>bounds := r\<rparr> else ts ! j)"
proof (cases "i < length ts")
  case True
  then show ?thesis by (auto simp: set_bounds_def nth_list_update)
next
  case False
  then have "ts[i := (ts ! i)\<lparr>bounds := r\<rparr>] = ts" by (simp add: list_update_beyond)
  with False show ?thesis by (simp add: set_bounds_def)
qed

lemma length_set_bounds: "length (set_bounds i r ts) = length ts"
  by (simp add: set_bounds_def)

lemma sbb_refl: "same_but_bounds ts ts"
  by (simp add: same_but_bounds_def)

lemma sbb_upd:
  assumes "same_but_bounds ts ts'"
  shows "(ts' ! j)\<lparr>bounds := r\<rparr> = (ts ! j)\<lparr>bounds := r\<rparr>"
proof -
  from assms have "ts' ! j = (ts ! j)\<lparr>bounds := bounds (ts' ! j)\<rparr>"
    by (simp add: same_but_bounds_def)
  then have "(ts' ! j)\<lparr>bounds := r\<rparr> = ((ts ! j)\<lparr>bounds := bounds (ts' ! j)\<rparr>)\<lparr>bounds := r\<rparr>"
    by simp
  then show ?thesis by simp
qed

lemma sbb_length: "same_but_bounds ts ts' \<Longrightarrow> length ts' = length ts"
  by (simp add: same_but_bounds_def)

lemma sbb_intro:
  assumes "length ts' = length ts" and "\<And>j r. (ts' ! j)\<lparr>bounds := r\<rparr> = (ts ! j)\<lparr>bounds := r\<rparr>"
  shows "same_but_bounds ts ts'"
proof -
  have "ts' ! j = (ts ! j)\<lparr>bounds := bounds (ts' ! j)\<rparr>" for j
  proof -
    have "ts' ! j = (ts' ! j)\<lparr>bounds := bounds (ts' ! j)\<rparr>" by simp
    also have "\<dots> = (ts ! j)\<lparr>bounds := bounds (ts' ! j)\<rparr>" by (rule assms(2))
    finally show ?thesis .
  qed
  with assms(1) show ?thesis by (simp add: same_but_bounds_def)
qed

lemma sbb_sym: "same_but_bounds ts ts' \<Longrightarrow> same_but_bounds ts' ts"
  by (rule sbb_intro) (simp_all add: sbb_length sbb_upd)

lemma sbb_trans:
  "same_but_bounds ts ts' \<Longrightarrow> same_but_bounds ts' ts'' \<Longrightarrow> same_but_bounds ts ts''"
  by (rule sbb_intro) (simp_all add: sbb_length sbb_upd)

lemma sbb_display: "same_but_bounds ts ts' \<Longrightarrow> display (ts' ! j) = display (ts ! j)"
proof -
  assume "same_but_bounds ts ts'"
  then have "(ts' ! j)\<lparr>bounds := undefined\<rparr> = (ts ! j)\<lparr>bounds := undefined\<rparr>" by (rule sbb_upd)
  then have "display ((ts' ! j)\<lparr>bounds := undefined\<rparr>) = display ((ts ! j)\<lparr>bounds := undefined\<rparr>)"
    by simp
  then show ?thesis by simp
qed

lemma sbb_text_val: "same_but_bounds ts ts' \<Longrightarrow> text_val (ts' ! j) = text_val (ts ! j)"
proof -
  assume "same_but_bounds ts ts'"
  then have "(ts' ! j)\<lparr>bounds := undefined\<rparr> = (ts ! j)\<lparr>bounds := undefined\<rparr>" by (rule sbb_upd)
  then have "text_val ((ts' ! j)\<lparr>bounds := undefined\<rparr>) = text_val ((ts ! j)\<lparr>bounds := undefined\<rparr>)"
    by simp
  then show ?thesis by simp
qed

lemma sbb_style: "same_but_bounds ts ts' \<Longrightarrow> style (ts' ! j) = style (ts ! j)"
proof -
  assume "same_but_bounds ts ts'"
  then have "(ts' ! j)\<lparr>bounds := undefined\<rparr> = (ts ! j)\<lparr>bounds := undefined\<rparr>" by (rule sbb_upd)
  then have "style ((ts' ! j)\<lparr>bounds := undefined\<rparr>) = style ((ts ! j)\<lparr>bounds := undefined\<rparr>)"
    by simp
  then show ?thesis by simp
qed

lemma sbb_set_bounds: "same_but_bounds ts (set_bounds i r ts)"
  by (rule sbb_intro) (simp_all add: length_set_bounds set_bounds_nth)

lemma bounds_only_id: "bounds_only (\<lambda>ts. ts)"
  by (simp add: bounds_only_def sbb_refl)

lemma bounds_only_set_bounds: "bounds_only (set_bounds i r)"
  unfolding bounds_only_def
proof (intro conjI allI impI)
  fix ts :: "'a TextElement list"
  show "same_but_bounds ts (set_bounds i r ts)" by (rule sbb_set_bounds)
next
  fix ts ts' :: "'a TextElement list" and j
  assume s: "same_but_bounds ts ts'"
  then have l: "length ts' = length ts" by (rule sbb_length)
  from s have "(ts' ! i)\<lparr>bounds := r\<rparr> = (ts ! i)\<lparr>bounds := r\<rparr>" by (rule sbb_upd)
  with l show "set_bounds i r ts' ! j = set_bounds i r ts ! j
      \<or> (set_bounds i r ts ! j = ts ! j \<and> set_bounds i r ts' ! j = ts' ! j)"
    by (simp add: set_bounds_nth)
qed

lemma bounds_only_sbb: "bounds_only f \<Longrightarrow> same_but_bounds ts (f ts)"
  by (simp add: bounds_only_def)

lemma bounds_only_length: "bounds_only f \<Longrightarrow> length (f ts) = length ts"
  using bounds_only_sbb [of f ts] by (simp add: sbb_length)

lemma bounds_only_det:
  "bounds_only f \<Longrightarrow> same_but_bounds ts ts' \<Longrightarrow>
     f ts' ! j = f ts ! j \<or> (f ts ! j = ts ! j \<and> f ts' ! j = ts' ! j)"
  by (simp add: bounds_only_def)

lemma bounds_only_comp:
  assumes f: "bounds_only f" and g: "bounds_only g"
  shows "bounds_only (\<lambda>ts. g (f ts))"
  unfolding bounds_only_def
proof (intro conjI allI impI)
  fix ts :: "'a TextElement list"
  show "same_but_bounds ts (g (f ts))"
    using bounds_only_sbb [OF f, of ts] bounds_only_sbb [OF g, of "f ts"] by (rule sbb_trans)
next
  fix ts ts' :: "'a TextElement list" and j
  assume s: "same_but_bounds ts ts'"
  have "same_but_bounds (f ts) ts"
    using bounds_only_sbb [OF f, of ts] by (rule sbb_sym)
  then have "same_but_bounds (f ts) ts'" using s by (rule sbb_trans)
  then have s': "same_but_bounds (f ts) (f ts')"
    using bounds_only_sbb [OF f, of ts'] by (rule sbb_trans)
  from bounds_only_det [OF g s', of j] bounds_only_det [OF f s, of j]
  show "g (f ts') ! j = g (f ts) ! j \<or> (g (f ts) ! j = ts ! j \<and> g (f ts') ! j = ts' ! j)"
    by auto
qed

lemma bounds_only_idem:
  assumes f: "bounds_only f"
  shows "f (f ts) = f ts"
proof (rule nth_equalityI)
  show "length (f (f ts)) = length (f ts)" using f by (simp add: bounds_only_length)
next
  fix j
  from bounds_only_det [OF f bounds_only_sbb [OF f, of ts], of j]
  show "f (f ts) ! j = f ts ! j" by auto
qed


text \<open>
  A pass whose parameters are read from the fields other than the bounds is
  \<open>bounds_only\<close> when it is so for each value of the parameters.
\<close>

lemma bounds_only_param:
  assumes p: "\<And>ts ts'. same_but_bounds ts ts' \<Longrightarrow> p ts' = p ts"
    and F: "\<And>q. bounds_only (F q)"
  shows "bounds_only (\<lambda>ts. F (p ts) ts)"
  unfolding bounds_only_def
proof (intro conjI allI impI)
  fix ts :: "'a TextElement list"
  show "same_but_bounds ts (F (p ts) ts)" by (rule bounds_only_sbb [OF F])
next
  fix ts ts' :: "'a TextElement list" and j
  assume s: "same_but_bounds ts ts'"
  then have "p ts' = p ts" by (rule p)
  with bounds_only_det [OF F s, of "p ts" j]
  show "F (p ts') ts' ! j = F (p ts) ts ! j
      \<or> (F (p ts) ts ! j = ts ! j \<and> F (p ts') ts' ! j = ts' ! j)"
    by simp
qed

lemma stack_bounds_only:
  "bounds_only (stack x y w dy zs :: 'h TextElement list \<Rightarrow> 'h TextElement list)"
proof (induction zs arbitrary: dy)
  case Nil
  have "(stack x y w dy [] :: 'h TextElement list \<Rightarrow> 'h TextElement list) = (\<lambda>ts. ts)"
    by (rule ext) simp
  then show ?case by (simp add: bounds_only_id)
next
  case (Cons z zs)
  obtain i dw dh where z: "z = (i, dw, dh)" by (cases z)
  let ?r = "\<lparr>x0 = x + (w - dw) / 2, y0 = y + dy, width = dw, height = dh\<rparr>"
  let ?f = "set_bounds i ?r :: 'h TextElement list \<Rightarrow> 'h TextElement list"
  let ?g = "stack x y w (dy + (dh + 3)) zs :: 'h TextElement list \<Rightarrow> 'h TextElement list"
  have "stack x y w dy (z # zs) = (\<lambda>ts. ?g (?f ts))"
    by (rule ext) (simp add: z)
  moreover have "bounds_only (\<lambda>ts. ?g (?f ts))"
    by (rule bounds_only_comp [OF bounds_only_set_bounds Cons.IH])
  ultimately show ?case by simp
qed

lemma stack_frame: "j \<notin> fst ` set zs \<Longrightarrow> stack x y w dy zs ts ! j = ts ! j"
  by (induction zs arbitrary: dy ts) (auto simp: set_bounds_nth)

lemma length_stack: "length (stack x y w dy zs ts) = length ts"
  using stack_bounds_only by (rule bounds_only_length)

lemma stack_hit:
  assumes "(i, dw, dh) \<in> set zs" and "distinct (map fst zs)" and "i < length ts"
  shows "\<exists>v. bounds (stack x y w dy zs ts ! i)
           = \<lparr>x0 = x + (w - dw) / 2, y0 = v, width = dw, height = dh\<rparr>"
  using assms
proof (induction zs arbitrary: dy ts)
  case Nil
  then show ?case by simp
next
  case (Cons z zs)
  obtain i' dw' dh' where z: "z = (i', dw', dh')" by (cases z)
  show ?case
  proof (cases "(i, dw, dh) = z")
    case True
    from Cons.prems(2) have "fst z \<notin> set (map fst zs)" by simp
    with True have "i \<notin> set (map fst zs)" by (metis fst_conv)
    then have "i \<notin> fst ` set zs" by simp
    then have "stack x y w (dy + (dh + 3)) zs
        (set_bounds i \<lparr>x0 = x + (w - dw) / 2, y0 = y + dy, width = dw, height = dh\<rparr> ts) ! i
      = set_bounds i \<lparr>x0 = x + (w - dw) / 2, y0 = y + dy, width = dw, height = dh\<rparr> ts ! i"
      by (rule stack_frame)
    with True Cons.prems(3) show ?thesis
      by (auto simp: set_bounds_nth)
  next
    case False
    with Cons.prems have "(i, dw, dh) \<in> set zs" "distinct (map fst zs)" by auto
    moreover have "i < length (set_bounds i' \<lparr>x0 = x + (w - dw') / 2, y0 = y + dy, width = dw', height = dh'\<rparr> ts)"
      using Cons.prems(3) by (simp add: length_set_bounds)
    ultimately show ?thesis
      using Cons.IH by (simp add: z)
  qed
qed


lemma displayable_sbb:
  "same_but_bounds ts ts' \<Longrightarrow> displayable h ts' grp = displayable h ts grp"
  by (simp add: displayable_def sbb_display)

lemma dimensions_of_sbb:
  "same_but_bounds ts ts' \<Longrightarrow> dimensions_of te ts' vis = dimensions_of te ts vis"
  by (simp add: dimensions_of_def sbb_text_val)

lemma align_text_group_bounds_only:
  "bounds_only (align_text_group te ta h grp :: 'h TextElement list \<Rightarrow> 'h TextElement list)"
proof -
  let ?p = "\<lambda>ts :: 'h TextElement list.
      (displayable h ts grp, dimensions_of te ts (displayable h ts grp),
       style (ts ! hd (displayable h ts grp)))"
  let ?F = "\<lambda>(vis, dims, st) (ts :: 'h TextElement list).
      if length vis = 0 then ts
      else stack (fst (anchor ta (group_extents dims) st)) (snd (anchor ta (group_extents dims) st))
             (fst (clamp_extents (group_extents dims))) 0 (zip vis dims) ts"
  have eq: "align_text_group te ta h grp = (\<lambda>ts. ?F (?p ts) ts)"
    by (rule ext) (simp add: align_text_group_def Let_def)
  have p: "?p ts' = ?p ts" if "same_but_bounds ts ts'" for ts ts'
    using that by (simp add: displayable_sbb dimensions_of_sbb sbb_style)
  have F: "bounds_only (?F q)" for q
  proof -
    obtain vis dims st where q: "q = (vis, dims, st)" by (cases q)
    show ?thesis
    proof (cases "length vis = 0")
      case True
      then have "?F q = (\<lambda>ts. ts)" by (simp add: q)
      then show ?thesis by (simp add: bounds_only_id)
    next
      case False
      then have "?F q = stack (fst (anchor ta (group_extents dims) st))
          (snd (anchor ta (group_extents dims) st))
          (fst (clamp_extents (group_extents dims))) 0 (zip vis dims)"
        by (simp add: q)
      then show ?thesis by (simp add: stack_bounds_only)
    qed
  qed
  have "bounds_only (\<lambda>ts. ?F (?p ts) ts)"
    using p F by (rule bounds_only_param)
  with eq show ?thesis by simp
qed

lemma align_text_group_frame:
  assumes "j \<notin> set grp \<or> \<not> display (ts ! j) h"
  shows "align_text_group te ta h grp ts ! j = ts ! j"
proof -
  from assms have "j \<notin> set (displayable h ts grp)"
    by (auto simp: displayable_def)
  then have "j \<notin> fst ` set (zip (displayable h ts grp) ds)" for ds :: "(real \<times> real) list"
    by (auto dest: set_zip_leftD)
  then show ?thesis
    by (simp add: align_text_group_def Let_def stack_frame)
qed

lemma grouped_pass_bounds_only:
  "bounds_only (grouped_pass te ta h gs :: 'h TextElement list \<Rightarrow> 'h TextElement list)"
proof (induction gs)
  case Nil
  have "(grouped_pass te ta h [] :: 'h TextElement list \<Rightarrow> 'h TextElement list) = (\<lambda>ts. ts)"
    by (rule ext) simp
  then show ?case by (simp add: bounds_only_id)
next
  case (Cons e gs)
  obtain gname grp where e: "e = (gname, grp)" by (cases e)
  let ?f = "(if gname \<noteq> None then align_text_group te ta h grp else (\<lambda>ts. ts))
      :: 'h TextElement list \<Rightarrow> 'h TextElement list"
  let ?g = "grouped_pass te ta h gs :: 'h TextElement list \<Rightarrow> 'h TextElement list"
  have f: "bounds_only ?f"
    by (simp add: align_text_group_bounds_only bounds_only_id)
  have "grouped_pass te ta h (e # gs) = (\<lambda>ts. ?g (?f ts))"
    by (rule ext) (simp add: e)
  moreover have "bounds_only (\<lambda>ts. ?g (?f ts))"
    by (rule bounds_only_comp [OF f Cons.IH])
  ultimately show ?case by simp
qed

lemma grouped_pass_append:
  "grouped_pass te ta h (gs @ gs') ts = grouped_pass te ta h gs' (grouped_pass te ta h gs ts)"
  by (induction gs arbitrary: ts) auto

lemma grouped_pass_frame:
  "(\<And>n g. (n, g) \<in> set gs \<Longrightarrow> n \<noteq> None \<Longrightarrow> j \<notin> set g) \<Longrightarrow>
     grouped_pass te ta h gs ts ! j = ts ! j"
proof (induction gs arbitrary: ts)
  case Nil
  then show ?case by simp
next
  case (Cons e gs)
  obtain gname grp where e: "e = (gname, grp)" by (cases e)
  have "grouped_pass te ta h gs ts' ! j = ts' ! j" for ts'
    using Cons.prems by (intro Cons.IH) auto
  moreover have "gname \<noteq> None \<Longrightarrow> align_text_group te ta h grp ts ! j = ts ! j"
    using Cons.prems [of gname grp] by (intro align_text_group_frame) (simp add: e)
  ultimately show ?case by (simp add: e)
qed

lemma grouped_pass_invisible:
  "\<not> display (ts ! j) h \<Longrightarrow> grouped_pass te ta h gs ts ! j = ts ! j"
proof (induction gs arbitrary: ts)
  case Nil
  then show ?case by simp
next
  case (Cons e gs)
  obtain gname grp where e: "e = (gname, grp)" by (cases e)
  let ?ts = "if gname \<noteq> None then align_text_group te ta h grp ts else ts"
  have a: "?ts ! j = ts ! j"
    using Cons.prems by (simp add: align_text_group_frame)
  with Cons.prems have "\<not> display (?ts ! j) h" by simp
  then have "grouped_pass te ta h gs ?ts ! j = ?ts ! j" by (rule Cons.IH)
  with a show ?case by (simp add: e)
qed


lemma ungrouped_pass_bounds_only:
  "bounds_only (ungrouped_pass te ta h is :: 'h TextElement list \<Rightarrow> 'h TextElement list)"
proof (induction "is")
  case Nil
  have "(ungrouped_pass te ta h [] :: 'h TextElement list \<Rightarrow> 'h TextElement list) = (\<lambda>ts. ts)"
    by (rule ext) simp
  then show ?case by (simp add: bounds_only_id)
next
  case (Cons i "is")
  let ?p = "\<lambda>ts :: 'h TextElement list. (display (ts ! i) h, text_val (ts ! i), style (ts ! i))"
  let ?F = "\<lambda>(d, t, st) (ts :: 'h TextElement list).
      if \<not> d then ts
      else set_bounds i
             \<lparr>x0 = fst (anchor ta (clamp_extents (te t)) st),
              y0 = snd (anchor ta (clamp_extents (te t)) st),
              width = fst (clamp_extents (te t)), height = snd (clamp_extents (te t))\<rparr> ts"
  let ?g = "ungrouped_pass te ta h is :: 'h TextElement list \<Rightarrow> 'h TextElement list"
  have p: "?p ts' = ?p ts" if "same_but_bounds ts ts'" for ts ts'
    using that by (simp add: sbb_display sbb_text_val sbb_style)
  have F: "bounds_only (?F q)" for q
  proof -
    obtain d t st where q: "q = (d, t, st)" by (cases q)
    show ?thesis
    proof (cases d)
      case True
      then have "?F q = set_bounds i
             \<lparr>x0 = fst (anchor ta (clamp_extents (te t)) st),
              y0 = snd (anchor ta (clamp_extents (te t)) st),
              width = fst (clamp_extents (te t)), height = snd (clamp_extents (te t))\<rparr>"
        by (simp add: q)
      then show ?thesis by (simp add: bounds_only_set_bounds)
    next
      case False
      then have "?F q = (\<lambda>ts. ts)" by (simp add: q)
      then show ?thesis by (simp add: bounds_only_id)
    qed
  qed
  have f: "bounds_only (\<lambda>ts. ?F (?p ts) ts)"
    using p F by (rule bounds_only_param)
  have "ungrouped_pass te ta h (i # is) = (\<lambda>ts. ?g (?F (?p ts) ts))"
    by (rule ext) (simp add: Let_def)
  moreover have "bounds_only (\<lambda>ts. ?g (?F (?p ts) ts))"
    by (rule bounds_only_comp [OF f Cons.IH])
  ultimately show ?case by simp
qed

lemma ungrouped_pass_frame:
  "j \<notin> set is \<Longrightarrow> ungrouped_pass te ta h is ts ! j = ts ! j"
  by (induction "is" arbitrary: ts) (auto simp: Let_def set_bounds_nth)

lemma ungrouped_pass_invisible:
  "\<not> display (ts ! j) h \<Longrightarrow> ungrouped_pass te ta h is ts ! j = ts ! j"
proof (induction "is" arbitrary: ts)
  case Nil
  then show ?case by simp
next
  case (Cons i "is")
  let ?ts = "if \<not> display (ts ! i) h then ts
        else
          (let extents = clamp_extents (te (text_val (ts ! i)));
               xy = anchor ta extents (style (ts ! i))
           in set_bounds i
                \<lparr>x0 = fst xy, y0 = snd xy, width = fst extents, height = snd extents\<rparr> ts)"
  have a: "?ts ! j = ts ! j"
    using Cons.prems by (auto simp: Let_def set_bounds_nth)
  with Cons.prems have "\<not> display (?ts ! j) h" by simp
  then have "ungrouped_pass te ta h is ?ts ! j = ?ts ! j" by (rule Cons.IH)
  with a show ?case by simp
qed

subsection \<open>update\<close>

text \<open>The store after update, whether the lookup of the ungrouped bucket raises or not.\<close>

lemma update_texts:
  "texts (snd (update te ta h s))
     = (case map_of (text_groups s) None of
          None \<Rightarrow> grouped_pass te ta h (text_groups s) (texts s)
        | Some u \<Rightarrow> ungrouped_pass te ta h u (grouped_pass te ta h (text_groups s) (texts s)))"
  by (simp add: update_def Let_def split: option.splits)

lemma update_text_groups: "text_groups (snd (update te ta h s)) = text_groups s"
  by (simp add: update_def Let_def split: option.splits)

text \<open>
  C7: a second call of \<open>update\<close> with the same extents function, the same alignment
  function and the same host state (hence the same displayable texts) gives the state
  the first call gave: the bounds of every element are the same after both.
\<close>

theorem update_idempotent:
  "update te ta h (snd (update te ta h s)) = update te ta h s"
proof (cases "map_of (text_groups s) None")
  case None
  let ?G = "grouped_pass te ta h (text_groups s) :: 'a TextElement list \<Rightarrow> 'a TextElement list"
  have "?G (?G (texts s)) = ?G (texts s)"
    using grouped_pass_bounds_only by (rule bounds_only_idem)
  with None show ?thesis by (simp add: update_def Let_def)
next
  case (Some u)
  let ?G = "\<lambda>ts :: 'a TextElement list.
      ungrouped_pass te ta h u (grouped_pass te ta h (text_groups s) ts)"
  have "bounds_only ?G"
    by (rule bounds_only_comp [OF grouped_pass_bounds_only ungrouped_pass_bounds_only])
  then have "?G (?G (texts s)) = ?G (texts s)" by (rule bounds_only_idem)
  with Some show ?thesis by (simp add: update_def Let_def)
qed

lemma update_invisible:
  assumes "\<not> display (texts s ! j) h"
  shows "texts (snd (update te ta h s)) ! j = texts s ! j"
proof -
  let ?ts = "grouped_pass te ta h (text_groups s) (texts s)"
  have a: "?ts ! j = texts s ! j" using assms by (rule grouped_pass_invisible)
  with assms have "\<not> display (?ts ! j) h" by simp
  then have "ungrouped_pass te ta h u ?ts ! j = ?ts ! j" for u
    by (rule ungrouped_pass_invisible)
  with a show ?thesis by (simp add: update_texts split: option.splits)
qed

text \<open>
  C9: \<open>point\<close> and \<open>draw\<close> leave the state, so every element's bounds, as they
  found it; \<open>update\<close> leaves the bounds of an element that is not displayed as they
  were, and so the bounds of every element of a named group none of whose elements is
  displayed.
\<close>

theorem bounds_written_by_update_only:
  "snd (point drp h s x y) = s
   \<and> snd (draw subject ctx h s) = s
   \<and> (\<not> display (texts s ! j) h \<longrightarrow>
        bounds (texts (snd (update te ta h s)) ! j) = bounds (texts s ! j))
   \<and> ((Some g, grp) \<in> set (text_groups s) \<and> displayable h (texts s) grp = [] \<and> j \<in> set grp \<longrightarrow>
        bounds (texts (snd (update te ta h s)) ! j) = bounds (texts s ! j))"
proof -
  have "\<not> display (texts s ! j) h" if "displayable h (texts s) grp = []" "j \<in> set grp"
    using that by (auto simp: displayable_def filter_empty_conv)
  then show ?thesis
    by (auto simp: point_def draw_def update_invisible)
qed

subsection \<open>Named groups\<close>

text \<open>
  In a state that satisfies the invariant, what \<open>update\<close> leaves at a member of a
  named group is what \<open>_align_text_group\<close> writes there for that group: the other
  groups and the ungrouped pass do not reach it.
\<close>

lemma update_named_group:
  assumes wf: "wf_groups s" and g: "(Some g, grp) \<in> set (text_groups s)" and j: "j \<in> set grp"
  shows "texts (snd (update te ta h s)) ! j = align_text_group te ta h grp (texts s) ! j"
proof -
  from g obtain pre post where gs: "text_groups s = pre @ (Some g, grp) # post"
    by (auto dest: split_list)
  from wf have "distinct (concat (map snd (text_groups s)))" by (simp add: wf_groups_def)
  with j have npre: "j \<notin> set (concat (map snd pre))" and npost: "j \<notin> set (concat (map snd post))"
    by (auto simp: gs)
  let ?ts = "texts s"
  let ?ts1 = "grouped_pass te ta h pre ?ts"
  let ?ts2 = "align_text_group te ta h grp ?ts1"
  let ?ts3 = "grouped_pass te ta h post ?ts2"
  have gp: "grouped_pass te ta h (text_groups s) ?ts = ?ts3"
    by (simp add: gs grouped_pass_append)
  have f1: "?ts1 ! j = ?ts ! j"
    using npre by (intro grouped_pass_frame) force
  have f3: "?ts3 ! j = ?ts2 ! j"
    using npost by (intro grouped_pass_frame) force
  have "same_but_bounds ?ts ?ts1"
    using grouped_pass_bounds_only by (rule bounds_only_sbb)
  from bounds_only_det [OF align_text_group_bounds_only this, of te ta h grp j] f1
  have f2: "?ts2 ! j = align_text_group te ta h grp ?ts ! j" by auto
  have f4: "ungrouped_pass te ta h u ?ts3 ! j = ?ts3 ! j" if "map_of (text_groups s) None = Some u" for u
  proof -
    from that have "(None, u) \<in> set (text_groups s)" by (rule map_of_SomeD)
    then have "(None, u) \<in> set pre \<or> (None, u) \<in> set post" by (auto simp: gs)
    then have "set u \<subseteq> set (concat (map snd pre)) \<union> set (concat (map snd post))" by force
    with npre npost have "j \<notin> set u" by auto
    then show ?thesis by (rule ungrouped_pass_frame)
  qed
  show ?thesis
    using gp f2 f3 f4 by (simp add: update_texts split: option.splits)
qed

lemma wf_groups_member:
  assumes "wf_groups s" and "(n, grp) \<in> set (text_groups s)"
  shows "distinct grp" and "\<And>j. j \<in> set grp \<Longrightarrow> j < length (texts s)"
proof -
  from assms(2) obtain pre post where gs: "text_groups s = pre @ (n, grp) # post"
    by (auto dest: split_list)
  from assms(1) show "distinct grp" by (simp add: wf_groups_def gs)
  fix j assume "j \<in> set grp"
  with assms(2) have "j \<in> set (concat (map snd (text_groups s)))" by force
  with assms(1) show "j < length (texts s)" unfolding wf_groups_def by blast
qed

lemma align_text_group_member:
  assumes d: "distinct grp" and j: "j \<in> set grp" and v: "display (ts ! j) h" and l: "j < length ts"
  shows "\<exists>v. bounds (align_text_group te ta h grp ts ! j)
     = \<lparr>x0 = fst (anchor ta (group_extents (dimensions_of te ts (displayable h ts grp)))
                   (style (ts ! hd (displayable h ts grp))))
             + (fst (clamp_extents (group_extents (dimensions_of te ts (displayable h ts grp))))
                - fst (te (text_val (ts ! j)))) / 2,
        y0 = v, width = fst (te (text_val (ts ! j))), height = snd (te (text_val (ts ! j)))\<rparr>"
proof -
  let ?vis = "displayable h ts grp"
  let ?dims = "dimensions_of te ts ?vis"
  from j v have jv: "j \<in> set ?vis" by (simp add: displayable_def)
  then have ne: "length ?vis \<noteq> 0" by auto
  have z: "zip ?vis ?dims = map (\<lambda>i. (i, te (text_val (ts ! i)))) ?vis"
    by (simp add: dimensions_of_def zip_map2 zip_same_conv_map)
  from jv have m: "(j, fst (te (text_val (ts ! j))), snd (te (text_val (ts ! j)))) \<in> set (zip ?vis ?dims)"
    by (auto simp: z)
  have "map fst (zip ?vis ?dims) = ?vis" by (simp add: z comp_def)
  moreover from d have "distinct ?vis" by (simp add: displayable_def)
  ultimately have dz: "distinct (map fst (zip ?vis ?dims))" by simp
  from stack_hit [OF m dz l] ne show ?thesis
    by (simp add: align_text_group_def Let_def)
qed

text \<open>
  What \<open>update\<close> leaves at a displayed member of a named group: its width and height
  are its own measured extents, and x0 = x + (W - w) / 2, where W is the clamped width
  and x is what \<open>text_align\<close> returned for the extents before the clamp.
\<close>

lemma named_group_member_bounds:
  assumes "wf_groups s" and "(Some g, grp) \<in> set (text_groups s)" and "j \<in> set grp"
    and "display (texts s ! j) h"
  shows "let vis = displayable h (texts s) grp;
             ext = group_extents (dimensions_of te (texts s) vis);
             W = fst (clamp_extents ext);
             boxX = fst (anchor ta ext (style (texts s ! hd vis)));
             b = bounds (texts (snd (update te ta h s)) ! j);
             dims = te (text_val (texts s ! j))
         in x0 b = boxX + (W - fst dims) / 2 \<and> width b = fst dims \<and> height b = snd dims"
proof -
  from wf_groups_member [OF assms(1,2)] assms(3)
  have d: "distinct grp" and l: "j < length (texts s)" by auto
  from align_text_group_member [OF d assms(3,4) l, of te ta]
    update_named_group [OF assms(1,2,3), of te ta h]
  show ?thesis by (auto simp: Let_def)
qed

lemma stack_Cons_pair:
  "stack x y w dy ((i, d) # zs) ts =
     stack x y w (dy + (snd d + 3)) zs
       (set_bounds i \<lparr>x0 = x + (w - fst d) / 2, y0 = y + dy, width = fst d, height = snd d\<rparr> ts)"
  by (cases d) simp

text \<open>
  What \<open>update\<close> leaves at a named group of three elements a, b, c, all displayed:
  in exact arithmetic y0 of a plus its height plus 3 is y0 of b, likewise for b and c;
  y0 of a is the y that \<open>text_align\<close> returned for the extents before the clamp.
\<close>

lemma named_group_of_three_stacked:
  assumes "wf_groups s" and "(Some g, [a, b, c]) \<in> set (text_groups s)"
    and "display (texts s ! a) h" and "display (texts s ! b) h" and "display (texts s ! c) h"
  shows "let ts' = texts (snd (update te ta h s));
             A = bounds (ts' ! a); B = bounds (ts' ! b); C = bounds (ts' ! c)
         in y0 A + height A + 3 = y0 B \<and> y0 B + height B + 3 = y0 C
            \<and> y0 A = snd (anchor ta (group_extents (dimensions_of te (texts s) [a, b, c]))
                           (style (texts s ! a)))"
proof -
  from wf_groups_member [OF assms(1,2)]
  have d: "a \<noteq> b" "a \<noteq> c" "b \<noteq> c"
    and l: "a < length (texts s)" "b < length (texts s)" "c < length (texts s)" by auto
  have vis: "displayable h (texts s) [a, b, c] = [a, b, c]"
    using assms(3-5) by (simp add: displayable_def)
  have u: "texts (snd (update te ta h s)) ! j = align_text_group te ta h [a, b, c] (texts s) ! j"
    if "j \<in> set [a, b, c]" for j
    using assms(1,2) that by (rule update_named_group)
  show ?thesis
    using d l
    by (simp add: Let_def u vis align_text_group_def dimensions_of_def stack_Cons_pair
        set_bounds_nth length_set_bounds)
qed

subsection \<open>The example item\<close>

lemma example_support_eq:
  "example_support =
     \<lparr>texts =
        [\<lparr>bounds = \<lparr>x0 = 0, y0 = 0, width = 10, height = 0\<rparr>, style = default_style,
          attr = ''name'', text_val = ''ClassName'', display = (\<lambda>h. True), pattern = ''%s''\<rparr>,
         \<lparr>bounds = \<lparr>x0 = 0, y0 = 0, width = 10, height = 0\<rparr>, style = default_style,
          attr = ''stereotype'', text_val = ''{abstract}'', display = (\<lambda>h. True), pattern = ''%s''\<rparr>,
         \<lparr>bounds = \<lparr>x0 = 0, y0 = 0, width = 10, height = 0\<rparr>, style = default_style,
          attr = ''kind'', text_val = ''x'', display = (\<lambda>h. True), pattern = ''%s''\<rparr>,
         \<lparr>bounds = \<lparr>x0 = 0, y0 = 0, width = 10, height = 0\<rparr>, style = default_style,
          attr = ''guard'', text_val = ''g'', display = (\<lambda>h. h), pattern = ''%s''\<rparr>,
         \<lparr>bounds = \<lparr>x0 = 0, y0 = 0, width = 10, height = 0\<rparr>, style = default_style,
          attr = ''note'', text_val = ''n'', display = (\<lambda>h. h), pattern = ''%s''\<rparr>],
      text_groups = [(None, [4]), (Some ''name'', [0, 1, 2]), (Some ''guard'', [3])]\<rparr>"
  by (simp add: example_support_def EditableTextSupport_init_def add_text_def Let_def
      example_style_def group_append_def TextElement_init_def style_nonempty_def
      Style_update_def default_style_def set_texts_def set_text_def py_format_def py_str_def)

lemma example_wf: "wf_groups example_support"
  by (simp add: example_support_eq wf_groups_def)


lemma example_texts_nth:
  "display (texts example_support ! 0) = (\<lambda>h. True)"
  "display (texts example_support ! 1) = (\<lambda>h. True)"
  "display (texts example_support ! Suc 0) = (\<lambda>h. True)"
  "display (texts example_support ! 2) = (\<lambda>h. True)"
  "display (texts example_support ! 3) = (\<lambda>h. h)"
  "display (texts example_support ! 4) = (\<lambda>h. h)"
  "text_val (texts example_support ! 0) = ''ClassName''"
  "text_val (texts example_support ! 1) = ''{abstract}''"
  "text_val (texts example_support ! Suc 0) = ''{abstract}''"
  "text_val (texts example_support ! 2) = ''x''"
  "text_val (texts example_support ! 3) = ''g''"
  "style (texts example_support ! 0) = default_style"
  "style (texts example_support ! 3) = default_style"
  "bounds (texts example_support ! 3) = \<lparr>x0 = 0, y0 = 0, width = 10, height = 0\<rparr>"
  "bounds (texts example_support ! 4) = \<lparr>x0 = 0, y0 = 0, width = 10, height = 0\<rparr>"
  "text_groups example_support = [(None, [4]), (Some ''name'', [0, 1, 2]), (Some ''guard'', [3])]"
  by (simp_all add: example_support_eq)

theorem bounds_written_by_update_only_witness:
  "\<not> display (texts example_support ! 4) False
   \<and> (Some ''guard'', [3]) \<in> set (text_groups example_support)
   \<and> displayable False (texts example_support) [3] = []
   \<and> bounds (texts (snd (update example_te example_ta False example_support)) ! 4)
       = \<lparr>x0 = 0, y0 = 0, width = 10, height = 0\<rparr>
   \<and> bounds (texts (snd (update example_te example_ta False example_support)) ! 3)
       = \<lparr>x0 = 0, y0 = 0, width = 10, height = 0\<rparr>"
proof -
  have d: "\<not> display (texts example_support ! 4) False" by (simp add: example_texts_nth)
  have g: "(Some ''guard'', [3]) \<in> set (text_groups example_support)"
    by (simp add: example_texts_nth)
  have v: "displayable False (texts example_support) [3] = []"
    by (simp add: displayable_def example_texts_nth)
  from bounds_written_by_update_only [of undefined False example_support 0 0 False undefined 4
      example_te example_ta "''guard''" "[3]"]
    bounds_written_by_update_only [of undefined False example_support 0 0 False undefined 3
      example_te example_ta "''guard''" "[3]"] d g v
  show ?thesis by (simp add: example_texts_nth)
qed

subsection \<open>Hit test\<close>

lemma point_distances_set:
  "set (point_distances drp h ts x y)
     = insert 10000 ((\<lambda>txt. drp (bounds txt) (x, y)) ` {txt \<in> set ts. display txt h})"
  by (auto simp: point_distances_def)

text \<open>
  C10: for every point and every state \<open>point\<close> returns at most 10000; when every
  displayed element is at a distance of 10000 or more, it returns 10000 and not the
  distance of an element.
\<close>

theorem point_at_most_sentinel:
  "fst (point drp h s x y) \<le> 10000
   \<and> ((\<forall>txt \<in> set (texts s). display txt h \<longrightarrow> 10000 \<le> drp (bounds txt) (x, y)) \<longrightarrow>
        fst (point drp h s x y) = 10000)"
proof -
  let ?D = "set (point_distances drp h (texts s) x y)"
  have fin: "finite ?D" by simp
  have mem: "10000 \<in> ?D" by (simp add: point_distances_def)
  from fin mem have le: "Min ?D \<le> 10000" by (rule Min_le)
  have "Min ?D = 10000" if "\<forall>txt \<in> set (texts s). display txt h \<longrightarrow> 10000 \<le> drp (bounds txt) (x, y)"
  proof (rule Min_eqI [OF fin _ mem])
    fix d assume "d \<in> ?D"
    with that show "10000 \<le> d" by (auto simp: point_distances_def)
  qed
  with le show ?thesis by (simp add: point_def)
qed

text \<open>
  C6, amended: \<open>point\<close> returns the least of the sentinel 10000 and the rectangle
  distances of exactly the displayed elements; it returns 10000 when no element is
  displayed; it leaves the state as it was.
\<close>

theorem point_min_with_sentinel:
  "fst (point drp h s x y)
     = Min (insert 10000 ((\<lambda>txt. drp (bounds txt) (x, y)) ` {txt \<in> set (texts s). display txt h}))
   \<and> ((\<forall>txt \<in> set (texts s). \<not> display txt h) \<longrightarrow> fst (point drp h s x y) = 10000)
   \<and> snd (point drp h s x y) = s"
proof (intro conjI impI)
  show "fst (point drp h s x y)
     = Min (insert 10000 ((\<lambda>txt. drp (bounds txt) (x, y)) ` {txt \<in> set (texts s). display txt h}))"
    by (simp add: point_def point_distances_set)
next
  assume "\<forall>txt \<in> set (texts s). \<not> display txt h"
  then have "filter (\<lambda>txt. display txt h) (texts s) = []"
    by (simp add: filter_empty_conv)
  then show "fst (point drp h s x y) = 10000"
    by (simp add: point_def point_distances_def)
next
  show "snd (point drp h s x y) = s" by (simp add: point_def)
qed

lemma example_guarded_texts:
  "texts example_guarded = [TextElement_init ''guard'' (Some (example_style None)) None (Some (\<lambda>h. h))]"
  by (simp add: example_guarded_def add_text_def EditableTextSupport_init_def Let_def)

theorem point_min_with_sentinel_witness:
  "filter (\<lambda>txt. display txt False) (texts example_guarded) = []
   \<and> fst (point distance_rectangle_point False example_guarded 3 4) = 10000
   \<and> snd (point distance_rectangle_point False example_guarded 3 4) = example_guarded"
proof -
  have h: "\<forall>txt \<in> set (texts example_guarded). \<not> display txt False"
    by (simp add: example_guarded_texts TextElement_init_def)
  then have "filter (\<lambda>txt. display txt False) (texts example_guarded) = []"
    by (simp add: filter_empty_conv)
  with point_min_with_sentinel [of distance_rectangle_point False example_guarded 3 4] h
  show ?thesis by simp
qed

lemma example_distances:
  "point_distances distance_rectangle_point False (texts example_support) 20000 0
     = [10000, 19990, 19990, 19990]"
  by (simp add: point_distances_def example_support_eq distance_rectangle_point_def)

text \<open>
  C6 as stated fails on the example item: its three displayed elements are at distance
  19990 from the point (20000, 0), so the least distance over the displayed elements is
  19990, and \<open>point\<close> returns 10000.
\<close>

theorem point_min_of_displayed_counterexample:
  "fst (point distance_rectangle_point False example_support 20000 0) = 10000
   \<and> point_spec distance_rectangle_point False example_support 20000 0 = 19990"
proof -
  have "map (\<lambda>txt. distance_rectangle_point (bounds txt) (20000, 0))
      (filter (\<lambda>txt. display txt False) (texts example_support)) = [19990, 19990, 19990]"
    using example_distances by (simp add: point_distances_def)
  then have "point_spec distance_rectangle_point False example_support 20000 0 = 19990"
    by (simp add: point_spec_def)
  moreover have "fst (point distance_rectangle_point False example_support 20000 0) = 10000"
    by (simp add: point_def example_distances)
  ultimately show ?thesis by simp
qed

theorem point_at_most_sentinel_witness:
  "list_all (\<lambda>txt. 10000 \<le> distance_rectangle_point (bounds txt) (20000, 0))
     (filter (\<lambda>txt. display txt False) (texts example_support))
   \<and> fst (point distance_rectangle_point False example_support 20000 0) = 10000"
proof -
  have h: "\<forall>txt \<in> set (texts example_support). display txt False \<longrightarrow>
      10000 \<le> distance_rectangle_point (bounds txt) (20000, 0)"
    by (simp add: example_support_eq distance_rectangle_point_def)
  then have "list_all (\<lambda>txt. 10000 \<le> distance_rectangle_point (bounds txt) (20000, 0))
     (filter (\<lambda>txt. display txt False) (texts example_support))"
    by (simp add: list_all_iff)
  with point_at_most_sentinel [of distance_rectangle_point False example_support 20000 0] h
  show ?thesis by simp
qed

subsection \<open>The box handed to the alignment function\<close>

lemma clamp_extents_floor: "15 \<le> fst (clamp_extents ext) \<and> 10 \<le> snd (clamp_extents ext)"
  by (simp add: clamp_extents_def)

lemma example_guard_group:
  "displayable True (texts example_support) [3] = [3]"
  "dimensions_of example_te (texts example_support) [3] = [(4, 5)]"
  by (simp_all add: displayable_def dimensions_of_def example_te_def example_texts_nth)

text \<open>
  C1: on the example item with the host state True, the group \<open>guard\<close> has one
  displayed text measuring (4, 5); the clamped box is (15, 10). \<open>update\<close> places the
  text at x0 = 53.5, which is the anchor of the extents (4, 5), x = 48, plus
  (15 - 4) / 2; had the alignment function received the clamped box, x = 42.5, the text
  would be at x0 = 48, centred in the host's 100 wide box.
\<close>

theorem align_text_group_anchor_unclamped:
  "group_extents (dimensions_of example_te (texts example_support) [3]) = (4, 5)
   \<and> clamp_extents (4, 5) = (15, 10)
   \<and> bounds (texts (snd (update example_te example_ta True example_support)) ! 3)
       = \<lparr>x0 = 107 / 2, y0 = 2, width = 4, height = 5\<rparr>
   \<and> bounds (align_text_group_spec example_te example_ta True [3] (texts example_support) ! 3)
       = \<lparr>x0 = 48, y0 = 2, width = 4, height = 5\<rparr>"
proof -
  have e: "group_extents [(4, 5)] = (4, 5)" by (simp add: group_extents_def)
  have c: "clamp_extents (4, 5) = (15, 10)" by (simp add: clamp_extents_def)
  have l: "(3::nat) < length (texts example_support)" by (simp add: example_support_eq)
  have u: "texts (snd (update example_te example_ta True example_support)) ! 3
      = align_text_group example_te example_ta True [3] (texts example_support) ! 3"
    by (rule update_named_group [OF example_wf, of "''guard''"]) (simp_all add: example_texts_nth)
  have a: "bounds (align_text_group example_te example_ta True [3] (texts example_support) ! 3)
      = \<lparr>x0 = 107 / 2, y0 = 2, width = 4, height = 5\<rparr>"
    using l
    by (simp add: align_text_group_def Let_def example_guard_group e c anchor_def example_ta_def
        example_texts_nth default_style_def set_bounds_nth)
  have b: "bounds (align_text_group_spec example_te example_ta True [3] (texts example_support) ! 3)
      = \<lparr>x0 = 48, y0 = 2, width = 4, height = 5\<rparr>"
    using l
    by (simp add: align_text_group_spec_def Let_def example_guard_group e c anchor_def
        example_ta_def example_texts_nth default_style_def set_bounds_nth)
  from e c u a b show ?thesis by (simp add: example_guard_group)
qed

subsection \<open>The position of a named group\<close>

lemma example_bottom_eq:
  "example_bottom =
     \<lparr>texts =
        [\<lparr>bounds = \<lparr>x0 = 0, y0 = 0, width = 10, height = 0\<rparr>,
          style = \<lparr>text_align = (ALIGN_CENTER, ALIGN_BOTTOM), text_padding = (2, 2, 2, 2),
                   text_outside = False\<rparr>,
          attr = ''name'', text_val = ''a'', display = (\<lambda>h. True), pattern = ''%s''\<rparr>,
         \<lparr>bounds = \<lparr>x0 = 0, y0 = 0, width = 10, height = 0\<rparr>,
          style = \<lparr>text_align = (ALIGN_CENTER, ALIGN_BOTTOM), text_padding = (2, 2, 2, 2),
                   text_outside = False\<rparr>,
          attr = ''stereotype'', text_val = ''b'', display = (\<lambda>h. True), pattern = ''%s''\<rparr>,
         \<lparr>bounds = \<lparr>x0 = 0, y0 = 0, width = 10, height = 0\<rparr>,
          style = \<lparr>text_align = (ALIGN_CENTER, ALIGN_BOTTOM), text_padding = (2, 2, 2, 2),
                   text_outside = False\<rparr>,
          attr = ''kind'', text_val = ''c'', display = (\<lambda>h. True), pattern = ''%s''\<rparr>],
      text_groups = [(None, []), (Some ''name'', [0, 1, 2])]\<rparr>"
  by (simp add: example_bottom_def EditableTextSupport_init_def add_text_def Let_def
      bottom_style_def group_append_def TextElement_init_def style_nonempty_def
      Style_update_def default_style_def set_texts_def set_text_def py_format_def py_str_def)

lemma example_bottom_wf: "wf_groups example_bottom"
  by (simp add: example_bottom_eq wf_groups_def)

lemma example_bottom_group:
  "displayable () (texts example_bottom) [0, 1, 2] = [0, 1, 2]"
  "displayable () (texts example_bottom) [0, Suc 0, 2] = [0, Suc 0, 2]"
  "dimensions_of example_te_small (texts example_bottom) [0, 1, 2] = [(4, 2), (4, 2), (4, 2)]"
  "dimensions_of example_te_small (texts example_bottom) [0, Suc 0, 2] = [(4, 2), (4, 2), (4, 2)]"
  "length (texts example_bottom) = 3"
  by (simp_all add: displayable_def dimensions_of_def example_te_small_def example_bottom_eq)

lemma example_bottom_style:
  "style (texts example_bottom ! 0)
     = \<lparr>text_align = (ALIGN_CENTER, ALIGN_BOTTOM), text_padding = (2, 2, 2, 2),
        text_outside = False\<rparr>"
  by (simp add: example_bottom_eq)

lemma example_bottom_extents:
  "group_extents [(4, 2), (4, 2), (4, 2)] = (4, 6)" "clamp_extents (4, 6) = (15, 10)"
  by (simp_all add: group_extents_def clamp_extents_def)

text \<open>
  C4: on the support with three bottom-aligned texts measuring (4, 2) each, the group's
  extents are (4, 6) and its clamped box is (15, 10). \<open>update\<close> stacks the texts at
  y0 = 52, 57 and 62, each 3 below the end of the one before; 52 is the anchor of the
  extents (4, 6). The clamped box is anchored at y = 48, and there the first text would
  be, had the alignment function received that box.
\<close>

theorem first_stacked_y0_is_not_box_y:
  "bounds (texts (snd (update example_te_small example_ta () example_bottom)) ! 0)
     = \<lparr>x0 = 107 / 2, y0 = 52, width = 4, height = 2\<rparr>
   \<and> bounds (texts (snd (update example_te_small example_ta () example_bottom)) ! 1)
       = \<lparr>x0 = 107 / 2, y0 = 57, width = 4, height = 2\<rparr>
   \<and> bounds (texts (snd (update example_te_small example_ta () example_bottom)) ! 2)
       = \<lparr>x0 = 107 / 2, y0 = 62, width = 4, height = 2\<rparr>
   \<and> clamp_extents (group_extents (dimensions_of example_te_small (texts example_bottom) [0, 1, 2]))
       = (15, 10)
   \<and> snd (anchor example_ta (15, 10) (style (texts example_bottom ! 0))) = 48
   \<and> y0 (bounds (align_text_group_spec example_te_small example_ta () [0, 1, 2]
         (texts example_bottom) ! 0)) = 48"
proof -
  have u: "texts (snd (update example_te_small example_ta () example_bottom)) ! j
      = align_text_group example_te_small example_ta () [0, 1, 2] (texts example_bottom) ! j"
    if "j \<in> set [0, 1, 2]" for j
    using example_bottom_wf _ that
    by (rule update_named_group [of _ "''name''"]) (simp add: example_bottom_eq)
  have u0: "texts (snd (update example_te_small example_ta () example_bottom)) ! 0
      = align_text_group example_te_small example_ta () [0, 1, 2] (texts example_bottom) ! 0"
    by (rule u) simp
  have u1: "texts (snd (update example_te_small example_ta () example_bottom)) ! 1
      = align_text_group example_te_small example_ta () [0, 1, 2] (texts example_bottom) ! 1"
    by (rule u) simp
  have u2: "texts (snd (update example_te_small example_ta () example_bottom)) ! 2
      = align_text_group example_te_small example_ta () [0, 1, 2] (texts example_bottom) ! 2"
    by (rule u) simp
  have y: "anchor example_ta (4, 6) (style (texts example_bottom ! 0)) = (48, 52)"
    by (simp add: anchor_def example_ta_def example_bottom_style)
  have y': "anchor example_ta (15, 10) (style (texts example_bottom ! 0)) = (85 / 2, 48)"
    by (simp add: anchor_def example_ta_def example_bottom_style)
  have a: "bounds (align_text_group example_te_small example_ta () [0, 1, 2]
        (texts example_bottom) ! 0) = \<lparr>x0 = 107 / 2, y0 = 52, width = 4, height = 2\<rparr>"
    by (simp add: align_text_group_def Let_def example_bottom_group example_bottom_extents y
        set_bounds_nth length_set_bounds)
  have b: "bounds (align_text_group example_te_small example_ta () [0, 1, 2]
        (texts example_bottom) ! 1) = \<lparr>x0 = 107 / 2, y0 = 57, width = 4, height = 2\<rparr>"
    by (simp add: align_text_group_def Let_def example_bottom_group example_bottom_extents y
        set_bounds_nth length_set_bounds)
  have c: "bounds (align_text_group example_te_small example_ta () [0, 1, 2]
        (texts example_bottom) ! 2) = \<lparr>x0 = 107 / 2, y0 = 62, width = 4, height = 2\<rparr>"
    by (simp add: align_text_group_def Let_def example_bottom_group example_bottom_extents y
        set_bounds_nth length_set_bounds)
  have d: "y0 (bounds (align_text_group_spec example_te_small example_ta () [0, 1, 2]
        (texts example_bottom) ! 0)) = 48"
    by (simp add: align_text_group_spec_def Let_def example_bottom_group example_bottom_extents
        y' set_bounds_nth length_set_bounds)
  from a b c d y' u0 u1 u2 show ?thesis
    by (simp add: example_bottom_group example_bottom_extents)
qed

lemma example_name_group:
  "displayable False (texts example_support) [0, 1, 2] = [0, 1, 2]"
  "displayable False (texts example_support) [0, Suc 0, 2] = [0, Suc 0, 2]"
  "dimensions_of example_te (texts example_support) [0, 1, 2] = [(10, 8), (14, 6), (4, 5)]"
  "dimensions_of example_te (texts example_support) [0, Suc 0, 2] = [(10, 8), (14, 6), (4, 5)]"
  "length (texts example_support) = 5"
  by (simp_all add: displayable_def dimensions_of_def example_te_def example_support_eq)

lemma example_name_extents:
  "group_extents [(10, 8), (14, 6), (4, 5)] = (14, 19)" "clamp_extents (14, 19) = (15, 19)"
  by (simp_all add: group_extents_def clamp_extents_def)

text \<open>
  C5: on the example item with the host state False, the group \<open>name\<close> has the
  extents (14, 19) and the clamped box (15, 19), of width W = 15. \<open>update\<close> places
  the second text, of width 14, at x0 = 43.5, which is the anchor of the extents
  (14, 19), x = 43, plus (15 - 14) / 2. The box of width 15 is anchored at boxX = 42.5,
  and boxX + (W - 14) / 2 is 43: there the text would be, had the alignment function
  received that box. Its width and height are its own extents, 14 and 6.
\<close>

theorem stacked_x0_is_not_centred_in_box:
  "bounds (texts (snd (update example_te example_ta False example_support)) ! 1)
     = \<lparr>x0 = 87 / 2, y0 = 13, width = 14, height = 6\<rparr>
   \<and> clamp_extents (group_extents (dimensions_of example_te (texts example_support) [0, 1, 2]))
       = (15, 19)
   \<and> fst (anchor example_ta (15, 19) (style (texts example_support ! 0))) = 85 / 2
   \<and> fst (anchor example_ta (15, 19) (style (texts example_support ! 0))) + (15 - 14) / 2 = 43
   \<and> bounds (align_text_group_spec example_te example_ta False [0, 1, 2]
         (texts example_support) ! 1)
       = \<lparr>x0 = 43, y0 = 13, width = 14, height = 6\<rparr>"
proof -
  have u: "texts (snd (update example_te example_ta False example_support)) ! 1
      = align_text_group example_te example_ta False [0, 1, 2] (texts example_support) ! 1"
    by (rule update_named_group [OF example_wf, of "''name''"]) (simp_all add: example_texts_nth)
  have x: "anchor example_ta (14, 19) (style (texts example_support ! 0)) = (43, 2)"
    by (simp add: anchor_def example_ta_def example_texts_nth default_style_def)
  have x': "anchor example_ta (15, 19) (style (texts example_support ! 0)) = (85 / 2, 2)"
    by (simp add: anchor_def example_ta_def example_texts_nth default_style_def)
  have a: "bounds (align_text_group example_te example_ta False [0, 1, 2]
        (texts example_support) ! 1) = \<lparr>x0 = 87 / 2, y0 = 13, width = 14, height = 6\<rparr>"
    by (simp add: align_text_group_def Let_def example_name_group example_name_extents x
        set_bounds_nth length_set_bounds)
  have b: "bounds (align_text_group_spec example_te example_ta False [0, 1, 2]
        (texts example_support) ! 1) = \<lparr>x0 = 43, y0 = 13, width = 14, height = 6\<rparr>"
    by (simp add: align_text_group_spec_def Let_def example_name_group example_name_extents x'
        set_bounds_nth length_set_bounds)
  from a b x' u show ?thesis
    by (simp add: example_name_group example_name_extents)
qed

subsection \<open>The invariant holds in every state built by add_text\<close>

lemma wf_groups_init: "wf_groups EditableTextSupport_init"
  by (simp add: wf_groups_def EditableTextSupport_init_def)

lemma group_append_keys: "map fst (group_append gname i gs) = map fst gs"
  by (induction gs) (auto simp: group_append_def)

lemma group_append_absent:
  "gname \<notin> fst ` set gs \<Longrightarrow> group_append gname i gs = gs"
  by (induction gs) (auto simp: group_append_def)

lemma group_append_members:
  "set (concat (map snd (group_append gname i gs))) \<subseteq> insert i (set (concat (map snd gs)))"
  by (induction gs) (auto simp: group_append_def split: if_splits)

lemma group_append_distinct:
  assumes "distinct (map fst gs)" and "distinct (concat (map snd gs))"
    and "i \<notin> set (concat (map snd gs))"
  shows "distinct (concat (map snd (group_append gname i gs)))"
  using assms
proof (induction gs)
  case Nil
  then show ?case by (simp add: group_append_def)
next
  case (Cons e gs)
  obtain n g where e: "e = (n, g)" by (cases e)
  have ga: "group_append gname i (e # gs)
      = (if n = gname then (n, g @ [i]) else (n, g)) # group_append gname i gs"
    by (simp add: group_append_def e)
  show ?case
  proof (cases "n = gname")
    case True
    with Cons.prems(1) have "gname \<notin> fst ` set gs" by (auto simp: e)
    then have "group_append gname i gs = gs" by (rule group_append_absent)
    then have "group_append gname i (e # gs) = (n, g @ [i]) # gs"
      using True by (simp add: ga)
    with Cons.prems show ?thesis by (auto simp: e)
  next
    case False
    from Cons.prems have ih: "distinct (concat (map snd (group_append gname i gs)))"
      by (intro Cons.IH) (auto simp: e)
    have sub: "set (concat (map snd (group_append gname i gs))) \<subseteq> insert i (set (concat (map snd gs)))"
      by (rule group_append_members)
    from Cons.prems have dg: "distinct g"
      and "set g \<inter> insert i (set (concat (map snd gs))) = {}"
      by (auto simp: e)
    with sub have "set g \<inter> set (concat (map snd (group_append gname i gs))) = {}"
      by blast
    moreover have "group_append gname i (e # gs) = (n, g) # group_append gname i gs"
      using False by (simp add: ga)
    ultimately show ?thesis using dg ih by simp
  qed
qed

lemma wf_groups_add_text:
  assumes "wf_groups s"
  shows "wf_groups (snd (add_text s a st p w))"
proof (cases st)
  case None
  from assms have "\<forall>j \<in> set (concat (map snd (text_groups s))). j < Suc (length (texts s))"
    unfolding wf_groups_def by (meson less_Suc_eq)
  with assms show ?thesis
    by (simp add: None wf_groups_def add_text_def Let_def)
next
  case (Some so)
  let ?n = "opt_text_align_group so"
  let ?i = "length (texts s)"
  let ?gs = "if ?n \<in> fst ` set (text_groups s) then text_groups s
             else text_groups s @ [(?n, [])]"
  from assms have k: "distinct (map fst ?gs)" and d: "distinct (concat (map snd ?gs))"
    and r: "\<forall>j \<in> set (concat (map snd ?gs)). j < ?i"
    by (auto simp: wf_groups_def)
  from r have f: "?i \<notin> set (concat (map snd ?gs))" by blast
  have "distinct (concat (map snd (group_append ?n ?i ?gs)))"
    using k d f by (rule group_append_distinct)
  moreover have "distinct (map fst (group_append ?n ?i ?gs))"
    using k by (simp only: group_append_keys)
  moreover have "\<forall>j \<in> set (concat (map snd (group_append ?n ?i ?gs))). j < Suc ?i"
    using r group_append_members [of ?n ?i ?gs] by fastforce
  ultimately show ?thesis
    by (simp add: Some add_text_with_style wf_groups_def)
qed

text \<open>\<open>update\<close> keeps the invariant: it changes neither the groups nor the size of the store.\<close>

lemma length_update_texts: "length (texts (snd (update te ta h s))) = length (texts s)"
  by (simp add: update_texts bounds_only_length grouped_pass_bounds_only
      ungrouped_pass_bounds_only split: option.splits)

lemma wf_groups_update: "wf_groups s \<Longrightarrow> wf_groups (snd (update te ta h s))"
  by (simp add: wf_groups_def update_text_groups length_update_texts)

end
